theory Spec2Isabelle
  imports Complex_Main "HOL-Library.AList"
begin

section \<open>Data model (types.ts, constants.ts)\<close>

text \<open>
  A JavaScript \<open>number\<close> is modelled as a \<^typ>\<open>real\<close>: every claim below is about
  comparisons, sums and clamping of small decimal quantities, which are read exactly.
  Field names carry a short prefix where the source's name is a keyword or would shadow
  a variable (\<open>x\<close>, \<open>y\<close>, \<open>id\<close>, \<open>name\<close>, \<open>type\<close>, \<open>value\<close>).
  An optional field (\<open>frozen?: boolean\<close>) is an \<^typ>\<open>bool option\<close>; \<open>None\<close> is
  \<open>undefined\<close>.
\<close>

datatype GamePhase = MENU | LOBBY | PLAYING | GAME_OVER

datatype PlayerSkin = SANTA | ELF | REINDEER | SNOWMAN | COOKIE

record Player =
  pid :: string
  px :: real
  py :: real
  score :: real
  skin :: PlayerSkin
  pname :: string
  pIsHost :: bool
  vx :: real
  vy :: real
  frozen :: "bool option"
  inverted :: "bool option"

record Present =
  prid :: string
  prx :: real
  pry :: real
  prvalue :: real

datatype EventType = SPEED_BOOST | SLOWNESS | FREEZE | REVERSE_CONTROLS | DOUBLE_POINTS | NORMAL

record ChaosEvent =
  ename :: string
  description :: string
  etype :: EventType
  duration :: real
  active :: bool

text \<open>
  \<open>players: Record<string, Player>\<close> is an association list in property order:
  \<open>Object.values\<close> enumerates string keys in the order of their first insertion, and an
  assignment to an existing key keeps its place, which is what \<^const>\<open>AList.update\<close>
  does. (Peer identities are UUID strings, never array indices, which JavaScript would
  enumerate first.)
\<close>

record GameState =
  players :: "(string \<times> Player) list"
  presents :: "Present list"
  activeEvent :: "ChaosEvent option"
  timeLeft :: real
  winnerId :: "string option"

datatype NetworkMessage =
    JOIN_REQUEST string PlayerSkin
  | JOIN_ACCEPT GameState string
  | INPUT real real
  | GAME_UPDATE GameState
  | START_GAME
  | GAME_OVER_MSG string

definition CANVAS_WIDTH :: real where "CANVAS_WIDTH = 800"
definition CANVAS_HEIGHT :: real where "CANVAS_HEIGHT = 600"
definition PLAYER_SIZE :: real where "PLAYER_SIZE = 40"
definition PRESENT_SIZE :: real where "PRESENT_SIZE = 30"
definition GAME_DURATION :: real where "GAME_DURATION = 120"
definition MOVEMENT_SPEED :: real where "MOVEMENT_SPEED = 5"

section \<open>The frame loop (GameCanvas.gameLoop)\<close>

text \<open>
  The GameCanvas component is the second file of \<open>src/unnamed/part_000\<close>; the line
  numbers of this section are lines of that file. The types are those of
  \<open>src/unnamed/part_001\<close> and the constants those of \<open>src/unnamed/part_002\<close>.

  What one callback reads from its surroundings: the keys held down
  (\<open>keysPressed.current\<close>, an absent code is falsy), the successive results of
  \<open>Math.random()\<close> during the callback (\<open>random env i\<close> is the \<open>i\<close>-th call), the text
  \<open>toString(36).substr(2, 9)\<close> makes of such a number, and \<open>performance.now()\<close>.
\<close>

record Env =
  keys :: "string \<Rightarrow> bool"
  random :: "nat \<Rightarrow> real"
  base36 :: "real \<Rightarrow> string"
  now :: real

text \<open>The variables of one run of the loop effect (\<open>let lastTime ...\<close>, lines 71-73).\<close>

record LoopVars =
  lastTime :: real
  lastNetworkUpdate :: real
  lastEventTrigger :: real

text \<open>What a callback does to the outside: calls on the peer service and on its props.\<close>

datatype Effect =
    SendToHost NetworkMessage
  | SendToPeer string NetworkMessage
  | Broadcast NetworkMessage
  | OnGameOver string
  | TriggerGeminiEvent

definition eventType :: "GameState \<Rightarrow> EventType option" where
  "eventType state = map_option etype (activeEvent state)"

text \<open>Lines 87-90: the vector of the arrow and WASD keys.\<close>

definition keyVector :: "(string \<Rightarrow> bool) \<Rightarrow> real \<times> real" where
  "keyVector ks =
     (let dy0 = (if ks ''ArrowUp'' \<or> ks ''KeyW'' then 0 - 1 else 0);
          dy1 = (if ks ''ArrowDown'' \<or> ks ''KeyS'' then dy0 + 1 else dy0);
          dx0 = (if ks ''ArrowLeft'' \<or> ks ''KeyA'' then 0 - 1 else 0);
          dx1 = (if ks ''ArrowRight'' \<or> ks ''KeyD'' then dx0 + 1 else dx0)
      in (dx1, dy1))"

text \<open>Lines 79-97: the local input, zero for an absent or frozen player, negated under
  REVERSE_CONTROLS.\<close>

definition localInput :: "GameState \<Rightarrow> string \<Rightarrow> (string \<Rightarrow> bool) \<Rightarrow> real \<times> real" where
  "localInput state myPlayerId ks =
     (case map_of (players state) myPlayerId of
        None \<Rightarrow> (0, 0)
      | Some myPlayer \<Rightarrow>
          if frozen myPlayer = Some True then (0, 0)
          else (let (dx, dy) = keyVector ks
                in if eventType state = Some REVERSE_CONTROLS then (- dx, - dy) else (dx, dy)))"

text \<open>Lines 103-105.\<close>

definition moveSpeed :: "GameState \<Rightarrow> real" where
  "moveSpeed state =
     (let speed0 = MOVEMENT_SPEED;
          speed1 = (if eventType state = Some SPEED_BOOST then speed0 * 2 else speed0);
          speed2 = (if eventType state = Some SLOWNESS then speed1 * 0.5 else speed1)
      in speed2)"

text \<open>Lines 108-109: the clamped move of one player.\<close>

definition movePlayer :: "real \<Rightarrow> real \<times> real \<Rightarrow> Player \<Rightarrow> Player" where
  "movePlayer speed d p =
     (let x' = max 0 (min (CANVAS_WIDTH - PLAYER_SIZE) (px p + fst d * speed));
          y' = max 0 (min (CANVAS_HEIGHT - PLAYER_SIZE) (py p + snd d * speed))
      in p\<lparr>px := x', py := y'\<rparr>)"

text \<open>Lines 101-109: the host moves \<open>state.players[myPlayerId]\<close>, and no other player.
  The player is there whenever the input is not zero (line 86), so the branch for an
  absent player is never taken by \<open>integrate\<close> below.\<close>

definition applyInput :: "GameState \<Rightarrow> string \<Rightarrow> real \<times> real \<Rightarrow> GameState" where
  "applyInput state myPlayerId d =
     (case map_of (players state) myPlayerId of
        None \<Rightarrow> state
      | Some p \<Rightarrow>
          state\<lparr>players := AList.update myPlayerId (movePlayer (moveSpeed state) d p) (players state)\<rparr>)"

text \<open>
  Lines 260-262. \<open>Array.prototype.sort\<close> is stable, so sorting by descending score is
  the stable sort on the negated score (\<^const>\<open>sort_key\<close> is a stable insertion sort).
  An empty record gives \<open>undefined?.id || ''\<close>, the empty string; an empty \<open>id\<close> gives
  the empty string as well.
\<close>

definition getWinner :: "(string \<times> Player) list \<Rightarrow> string" where
  "getWinner ps =
     (case sort_key (\<lambda>p. - score p) (map snd ps) of
        [] \<Rightarrow> ''''
      | p # _ \<Rightarrow> pid p)"

text \<open>Lines 128-133: the active event's countdown.\<close>

definition eventTimer :: "real \<Rightarrow> GameState \<Rightarrow> GameState" where
  "eventTimer dt state =
     (case activeEvent state of
        None \<Rightarrow> state
      | Some ev \<Rightarrow>
          if active ev then
            (let ev' = ev\<lparr>duration := duration ev - dt\<rparr>
             in if duration ev' \<le> 0 then state\<lparr>activeEvent := None\<rparr>
                else state\<lparr>activeEvent := Some ev'\<rparr>)
          else state)"

text \<open>Lines 137-139: the condition under which a new event is requested.\<close>

definition shouldTrigger :: "real \<Rightarrow> LoopVars \<Rightarrow> GameState \<Rightarrow> bool" where
  "shouldTrigger time lv state =
     (let timeSinceStart = 120 - timeLeft state
      in activeEvent state = None \<and> \<lfloor>timeSinceStart\<rfloor> > 0 \<and> \<lfloor>timeSinceStart\<rfloor> mod 30 = 0
         \<and> time - lastEventTrigger lv > 5000)"

text \<open>Lines 147-151: the overlap test of a player's box and a present's box.\<close>

definition hit :: "Player \<Rightarrow> Present \<Rightarrow> bool" where
  "hit p present =
     (px p < prx present + PRESENT_SIZE \<and> px p + PLAYER_SIZE > prx present \<and>
      py p < pry present + PRESENT_SIZE \<and> py p + PLAYER_SIZE > pry present)"

text \<open>Lines 154-155.\<close>

definition points :: "ChaosEvent option \<Rightarrow> Present \<Rightarrow> real" where
  "points ev present =
     (if map_option etype ev = Some DOUBLE_POINTS then prvalue present * 2 else prvalue present)"

text \<open>
  Lines 146-160: one player's \<open>filter\<close> over the presents, left to right; the callback
  adds to the player's score as it goes and drops the presents it hits.
\<close>

fun collect :: "ChaosEvent option \<Rightarrow> Player \<Rightarrow> Present list \<Rightarrow> Player \<times> Present list" where
  "collect ev p [] = (p, [])"
| "collect ev p (present # rest) =
     (if hit p present then collect ev (p\<lparr>score := score p + points ev present\<rparr>) rest
      else (let (p', kept) = collect ev p rest in (p', present # kept)))"

text \<open>Lines 145-161: \<open>Object.values(state.players).forEach\<close>, each player on what the
  previous players left.\<close>

fun collisions :: "ChaosEvent option \<Rightarrow> (string \<times> Player) list \<Rightarrow> Present list
    \<Rightarrow> (string \<times> Player) list \<times> Present list" where
  "collisions ev [] prs = ([], prs)"
| "collisions ev ((k, p) # ps) prs =
     (let (p', prs') = collect ev p prs;
          (ps', prs'') = collisions ev ps prs'
      in ((k, p') # ps', prs''))"

text \<open>Lines 164-173: the spawner. The calls to \<open>Math.random()\<close> are numbered in the order
  the callback makes them.\<close>

definition spawnPresent :: "Env \<Rightarrow> Present list \<Rightarrow> Present list" where
  "spawnPresent env prs =
     (if length prs < 10 then
        (if random env 0 < 0.05 then
           prs @ [\<lparr>prid = base36 env (random env 1),
                    prx = random env 2 * (CANVAS_WIDTH - PRESENT_SIZE),
                    pry = random env 3 * (CANVAS_HEIGHT - PRESENT_SIZE),
                    prvalue = (if random env 4 > 0.8 then 5 else 1)\<rparr>]
         else prs)
      else prs)"

text \<open>
  Lines 119-185, the host's part of a callback. The result is the loop variables and the
  state after it, the calls it made, and whether it asked for another frame
  (\<open>return; // Stop loop\<close> does not).
\<close>

definition hostLogic :: "Env \<Rightarrow> real \<Rightarrow> real \<Rightarrow> LoopVars \<Rightarrow> GameState
    \<Rightarrow> (LoopVars \<times> GameState) \<times> Effect list \<times> bool" where
  "hostLogic env time dt lv state1 =
     (let state2 = state1\<lparr>timeLeft := timeLeft state1 - dt\<rparr>
      in if timeLeft state2 \<le> 0 then
           ((lv, state2), [OnGameOver (getWinner (players state2))], False)
         else
           (let state3 = eventTimer dt state2;
                trig = shouldTrigger time lv state3;
                lv2 = (if trig then lv\<lparr>lastEventTrigger := time\<rparr> else lv);
                (ps, prs) = collisions (activeEvent state3) (players state3) (presents state3);
                state4 = state3\<lparr>players := ps, presents := prs\<rparr>;
                state5 = state4\<lparr>presents := spawnPresent env (presents state4)\<rparr>;
                bc = (time - lastNetworkUpdate lv2 > 40);
                lv3 = (if bc then lv2\<lparr>lastNetworkUpdate := time\<rparr> else lv2)
            in ((lv3, state5),
                (if trig then [TriggerGeminiEvent] else []) @
                (if bc then [Broadcast (GAME_UPDATE state5)] else []),
                True)))"

text \<open>Lines 99-109 on the host: the local input, when it is not zero, moves the local
  player.\<close>

definition integrate :: "GameState \<Rightarrow> string \<Rightarrow> (string \<Rightarrow> bool) \<Rightarrow> GameState" where
  "integrate state myPlayerId ks =
     (let d = localInput state myPlayerId ks
      in if fst d \<noteq> 0 \<or> snd d \<noteq> 0 then applyInput state myPlayerId d else state)"

text \<open>Lines 75-191: one callback of the loop, on the host or on a client.\<close>

definition gameLoop :: "bool \<Rightarrow> string \<Rightarrow> Env \<Rightarrow> real \<Rightarrow> LoopVars \<Rightarrow> GameState
    \<Rightarrow> (LoopVars \<times> GameState) \<times> Effect list \<times> bool" where
  "gameLoop isHost' myPlayerId env time lv state =
     (let dt = (time - lastTime lv) / 1000;
          lv1 = lv\<lparr>lastTime := time\<rparr>;
          d = localInput state myPlayerId (keys env)
      in if isHost' then hostLogic env time dt lv1 (integrate state myPlayerId (keys env))
         else ((lv1, state),
               (if fst d \<noteq> 0 \<or> snd d \<noteq> 0 then [SendToHost (INPUT (fst d) (snd d))] else []),
               True))"

section \<open>The session on the host (App.tsx)\<close>

text \<open>The component's state (\<open>useState\<close>, lines 9-18 of App.tsx).\<close>

record App =
  phase :: GamePhase
  myName :: string
  mySkin :: PlayerSkin
  hostId :: string
  joinId :: string
  error :: string
  gameState :: "GameState option"
  myId :: string
  isHost :: bool

definition initialApp :: App where
  "initialApp =
     \<lparr>phase = MENU, myName = '''', mySkin = SANTA, hostId = '''', joinId = '''', error = '''',
      gameState = None, myId = '''', isHost = False\<rparr>"

text \<open>Lines 27-57: \<open>ident\<close> is the identity \<open>peerService.initialize()\<close> resolved to.\<close>

definition initHost :: "string \<Rightarrow> App \<Rightarrow> App" where
  "initHost ident a =
     (if myName a = [] then a\<lparr>error := ''Please enter your name!''\<rparr>
      else
        (let initialPlayer =
               \<lparr>pid = ident, px = CANVAS_WIDTH / 2, py = CANVAS_HEIGHT / 2, score = 0,
                skin = mySkin a, pname = myName a, pIsHost = True, vx = 0, vy = 0,
                frozen = None, inverted = None\<rparr>;
             newState =
               \<lparr>players = [(ident, initialPlayer)], presents = [], activeEvent = None,
                timeLeft = GAME_DURATION, winnerId = None\<rparr>
         in a\<lparr>myId := ident, isHost := True, hostId := ident, gameState := Some newState,
               phase := LOBBY\<rparr>))"

text \<open>
  Lines 60-101: the host's message listener. \<open>None\<close> is a call that leaves the
  component's state as it is: the updater that finds no state, the empty INPUT branch,
  and every other message.
\<close>

definition hostOnMessage :: "Env \<Rightarrow> NetworkMessage \<Rightarrow> string \<Rightarrow> App \<Rightarrow> (App \<times> Effect list) option" where
  "hostOnMessage env msg sourcePeerId a =
     (case msg of
        JOIN_REQUEST nm sk \<Rightarrow>
          (case gameState a of
             None \<Rightarrow> None
           | Some prev \<Rightarrow>
               (let newPlayer =
                      \<lparr>pid = sourcePeerId, px = random env 0 * CANVAS_WIDTH,
                       py = random env 1 * CANVAS_HEIGHT, score = 0, skin = sk, pname = nm,
                       pIsHost = False, vx = 0, vy = 0, frozen = None, inverted = None\<rparr>;
                    nextState = prev\<lparr>players := AList.update sourcePeerId newPlayer (players prev)\<rparr>
                in Some (a\<lparr>gameState := Some nextState\<rparr>,
                         [SendToPeer sourcePeerId (JOIN_ACCEPT nextState sourcePeerId)])))
      | INPUT dx dy \<Rightarrow> None
      | _ \<Rightarrow> None)"

text \<open>Lines 145-149.\<close>

definition startGame :: "App \<Rightarrow> (App \<times> Effect list) option" where
  "startGame a = (if \<not> isHost a then None else Some (a\<lparr>phase := PLAYING\<rparr>, [Broadcast START_GAME]))"

text \<open>Lines 158-177, once \<open>await generateChaosEvent()\<close> has resolved to \<open>event\<close>, here
  an event of the declared type. The host role is read before the fetch; it never
  changes back, so reading it from the state at hand is the same.\<close>

definition handleTriggerGemini :: "ChaosEvent \<Rightarrow> App \<Rightarrow> App" where
  "handleTriggerGemini event a =
     (if \<not> isHost a then a
      else (case gameState a of
              None \<Rightarrow> a
            | Some prev \<Rightarrow> a\<lparr>gameState := Some (prev\<lparr>activeEvent := Some event\<rparr>)\<rparr>))"

text \<open>Lines 179-182.\<close>

definition handleGameOver :: "string \<Rightarrow> App \<Rightarrow> App" where
  "handleGameOver w a =
     a\<lparr>gameState := map_option (\<lambda>prev. prev\<lparr>winnerId := Some w\<rparr>) (gameState a),
       phase := GAME_OVER\<rparr>"

subsection \<open>A run of the host\<close>

text \<open>
  The host as a whole: the component's state, the variables of the running loop (\<open>None\<close>
  while no GameCanvas is mounted or after the loop stopped), the calls made on the peer
  service with the time of each, and the number of event fetches in flight.

  GameCanvas is rendered while the phase is PLAYING and a state exists (App.tsx line
  307). Its loop effect depends on \<open>onGameOver\<close> and \<open>triggerGeminiEvent\<close> (GameCanvas
  line 195), which App.tsx makes anew at every render (lines 158, 179), so every update
  of the component's state tears the loop down and starts it again with fresh variables
  (lines 71-73).
\<close>

record Host =
  app :: App
  loop :: "LoopVars option"
  outbox :: "(real \<times> Effect) list"
  pending :: nat

text \<open>
  What happens to the host, one event at a time: the Host button is pressed in the menu
  and the peer service resolves to an identity; a message arrives from a peer (the
  listener is installed by \<open>initHost\<close>, so only a host hears it); the Start button is
  pressed in the lobby; the browser runs the loop's callback with a time stamp; an event
  fetch that is in flight resolves. Each event comes with the surroundings it reads.
  \<open>perform\<close> carries out one call a callback made: \<open>onGameOver\<close> and
  \<open>triggerGeminiEvent\<close> are App's handlers, every other call goes to the peer service
  and is recorded with its time.
\<close>

datatype HostEvent =
    ClickHost string
  | Receive NetworkMessage string
  | ClickStart
  | AnimationFrame real
  | GeminiResolved ChaosEvent

definition mountLoop :: "real \<Rightarrow> App \<Rightarrow> LoopVars option" where
  "mountLoop t a =
     (if phase a = PLAYING \<and> gameState a \<noteq> None
      then Some \<lparr>lastTime = t, lastNetworkUpdate = 0, lastEventTrigger = 0\<rparr>
      else None)"

fun perform :: "real \<Rightarrow> Effect \<Rightarrow> Host \<Rightarrow> Host" where
  "perform t (OnGameOver w) h = h\<lparr>app := handleGameOver w (app h), loop := None\<rparr>"
| "perform t TriggerGeminiEvent h = (if isHost (app h) then h\<lparr>pending := Suc (pending h)\<rparr> else h)"
| "perform t e h = h\<lparr>outbox := outbox h @ [(t, e)]\<rparr>"

fun hostStep :: "Env \<times> HostEvent \<Rightarrow> Host \<Rightarrow> Host" where
  "hostStep (env, ClickHost ident) h =
     (if phase (app h) = MENU then h\<lparr>app := initHost ident (app h)\<rparr> else h)"
| "hostStep (env, Receive msg src) h =
     (if \<not> isHost (app h) then h
      else (case hostOnMessage env msg src (app h) of
              None \<Rightarrow> h
            | Some (a', fx) \<Rightarrow>
                fold (perform (now env)) fx (h\<lparr>app := a', loop := mountLoop (now env) a'\<rparr>)))"
| "hostStep (env, ClickStart) h =
     (if phase (app h) \<noteq> LOBBY then h
      else (case startGame (app h) of
              None \<Rightarrow> h
            | Some (a', fx) \<Rightarrow>
                fold (perform (now env)) fx (h\<lparr>app := a', loop := mountLoop (now env) a'\<rparr>)))"
| "hostStep (env, AnimationFrame time) h =
     (case (loop h, gameState (app h)) of
        (Some lv, Some s) \<Rightarrow>
          (let ((lv', s'), fx, again) = gameLoop (isHost (app h)) (myId (app h)) env time lv s
           in fold (perform time) fx
                (h\<lparr>app := (app h)\<lparr>gameState := Some s'\<rparr>,
                   loop := (if again then Some lv' else None)\<rparr>))
      | _ \<Rightarrow> h)"
| "hostStep (env, GeminiResolved event) h =
     (if pending h = 0 then h
      else (let a' = handleTriggerGemini event (app h);
                h' = h\<lparr>pending := pending h - 1\<rparr>
            in if isHost (app h) \<and> gameState (app h) \<noteq> None
               then h'\<lparr>app := a', loop := mountLoop (now env) a'\<rparr>
               else h'))"

definition hostRun :: "(Env \<times> HostEvent) list \<Rightarrow> Host \<Rightarrow> Host" where
  "hostRun evs h = fold hostStep evs h"

text \<open>The host before anything happened, the name and skin typed into the menu.\<close>

definition freshHost :: "string \<Rightarrow> PlayerSkin \<Rightarrow> Host" where
  "freshHost nm sk =
     \<lparr>app = initialApp\<lparr>myName := nm, mySkin := sk\<rparr>, loop = None, outbox = [], pending = 0\<rparr>"

section \<open>The event content provider (services/geminiService.ts)\<close>

text \<open>
  What \<open>generateChaosEvent\<close> meets outside itself: the credential
  \<open>process.env.API_KEY\<close> (possibly absent), the answer of
  \<open>ai.models.generateContent\<close> (a rejection, or a response whose \<open>text\<close> is a string
  or \<open>undefined\<close>), and \<open>JSON.parse\<close> (a SyntaxError, or the value the text denotes).
  \<open>Throws\<close> is an exception or a rejected promise.
\<close>

datatype json =
    JNull | JBool bool | JNumber real | JString string | JArray "json list"
  | JObject "(string \<times> json) list"














section \<open>Concrete inputs\<close>

text \<open>A callback's surroundings: the keys held, every \<open>Math.random()\<close> giving \<open>r\<close>, the
  clock at \<open>t\<close>.\<close>

definition surroundings :: "string list \<Rightarrow> real \<Rightarrow> real \<Rightarrow> Env" where
  "surroundings held r t =
     \<lparr>keys = (\<lambda>k. k \<in> set held), random = (\<lambda>i. r), base36 = (\<lambda>x. ''k3x9q0z1a''), now = t\<rparr>"

definition examplePlayer :: "string \<Rightarrow> real \<Rightarrow> real \<Rightarrow> real \<Rightarrow> Player" where
  "examplePlayer ident x y sc =
     \<lparr>pid = ident, px = x, py = y, score = sc, skin = ELF, pname = ident, pIsHost = False,
      vx = 0, vy = 0, frozen = None, inverted = None\<rparr>"

definition exampleEvent :: "EventType \<Rightarrow> ChaosEvent" where
  "exampleEvent t =
     \<lparr>ename = ''Rudolph's Rush'', description = ''Ho ho ho'', etype = t, duration = 10,
      active = True\<rparr>"

definition exampleState :: "(string \<times> Player) list \<Rightarrow> Present list \<Rightarrow> ChaosEvent option \<Rightarrow> real
    \<Rightarrow> GameState" where
  "exampleState ps prs ev t =
     \<lparr>players = ps, presents = prs, activeEvent = ev, timeLeft = t, winnerId = None\<rparr>"

text \<open>A host in the middle of a match: its loop last ran at 1000 ms and last broadcast
  at 990 ms.\<close>

definition playingHost :: "GameState \<Rightarrow> Host" where
  "playingHost s =
     \<lparr>app = \<lparr>phase = PLAYING, myName = ''ann'', mySkin = SANTA, hostId = ''host'', joinId = '''',
             error = '''', gameState = Some s, myId = ''host'', isHost = True\<rparr>,
      loop = Some \<lparr>lastTime = 1000, lastNetworkUpdate = 990, lastEventTrigger = 0\<rparr>,
      outbox = [], pending = 0\<rparr>"

text \<open>Two players tied at three points, 16 ms before the end of the match.\<close>

definition tiedState :: GameState where
  "tiedState =
     exampleState [(''host'', examplePlayer ''host'' 400 300 3),
                   (''guest'', examplePlayer ''guest'' 200 150 3)] [] None 0.016"

text \<open>Two players on the same spot, a present worth 5 under both and a present worth 1
  under the second only.\<close>

definition crowdedState :: GameState where
  "crowdedState =
     exampleState [(''host'', examplePlayer ''host'' 400 300 0),
                   (''guest'', examplePlayer ''guest'' 410 300 0)]
       [\<lparr>prid = ''gold'', prx = 400, pry = 300, prvalue = 5\<rparr>,
        \<lparr>prid = ''plain'', prx = 445, pry = 300, prvalue = 1\<rparr>] None 60"


text \<open>A host alone in its match: the tab sleeps for 30 s, the frame that follows asks
  for an event, and the next frame, 90.5 s later, ends the match while the fetch is
  still in flight.\<close>

definition lateFetch :: "(Env \<times> HostEvent) list" where
  "lateFetch =
     [(surroundings [] 0.99 0, ClickHost ''host''),
      (surroundings [] 0.99 1000, ClickStart),
      (surroundings [] 0.99 31000, AnimationFrame 31000),
      (surroundings [] 0.99 121500, AnimationFrame 121500)]"


section \<open>Properties of states and of what is sent\<close>

text \<open>No player of the state has its \<open>frozen\<close> or its \<open>inverted\<close> flag set to anything.\<close>

definition unflagged :: "GameState \<Rightarrow> bool" where
  "unflagged s = list_all (\<lambda>kp. frozen (snd kp) = None \<and> inverted (snd kp) = None) (players s)"

text \<open>The state a call on the peer service carries to the clients, if it carries one.\<close>

fun carried :: "Effect \<Rightarrow> GameState option" where
  "carried (SendToPeer peer (JOIN_ACCEPT s ident)) = Some s"
| "carried (Broadcast (GAME_UPDATE s)) = Some s"
| "carried (SendToHost (GAME_UPDATE s)) = Some s"
| "carried e = None"

definition unflaggedOpt :: "GameState option \<Rightarrow> bool" where
  "unflaggedOpt so = (case so of None \<Rightarrow> True | Some s \<Rightarrow> unflagged s)"

text \<open>The host's own state and every state it has sent are unflagged.\<close>

definition allUnflagged :: "Host \<Rightarrow> bool" where
  "allUnflagged h =
     (unflaggedOpt (gameState (app h)) \<and> list_all (\<lambda>te. unflaggedOpt (carried (snd te))) (outbox h))"

text \<open>A state snapshot broadcast, and the times at which the host has broadcast one.\<close>

fun isSnapshot :: "Effect \<Rightarrow> bool" where
  "isSnapshot (Broadcast (GAME_UPDATE s)) = True"
| "isSnapshot e = False"

definition snapshotTimes :: "Host \<Rightarrow> real list" where
  "snapshotTimes h = map fst (filter (\<lambda>te. isSnapshot (snd te)) (outbox h))"

text \<open>The events that leave the component's state to the loop: a frame, and an INPUT
  message.\<close>

fun frameOrInput :: "Env \<times> HostEvent \<Rightarrow> bool" where
  "frameOrInput (env, AnimationFrame time) = True"
| "frameOrInput (env, Receive (INPUT dx dy) src) = True"
| "frameOrInput ev = False"

text \<open>A message that tells a peer the match is over.\<close>

fun gameOverMessage :: "Effect \<Rightarrow> bool" where
  "gameOverMessage (Broadcast (GAME_OVER_MSG w)) = True"
| "gameOverMessage (SendToPeer peer (GAME_OVER_MSG w)) = True"
| "gameOverMessage (SendToHost (GAME_OVER_MSG w)) = True"
| "gameOverMessage e = False"

text \<open>The start of \<open>lateFetch\<close>, but the requested event arrives 5 ms after the frame
  that asked for it, and the next frame follows 16 ms after that frame.\<close>

definition restartRun :: "(Env \<times> HostEvent) list" where
  "restartRun =
     [(surroundings [] 0.99 0, ClickHost ''host''),
      (surroundings [] 0.99 1000, ClickStart),
      (surroundings [] 0.99 31000, AnimationFrame 31000),
      (surroundings [] 0.99 31005, GeminiResolved (exampleEvent SLOWNESS)),
      (surroundings [] 0.99 31016, AnimationFrame 31016)]"

text \<open>Where the host's state has the player with key \<open>k\<close>.\<close>

definition positionOf :: "string \<Rightarrow> Host \<Rightarrow> (real \<times> real) option" where
  "positionOf k h =
     (case gameState (app h) of
        None \<Rightarrow> None
      | Some s \<Rightarrow> map_option (\<lambda>p. (px p, py p)) (map_of (players s) k))"

text \<open>A host opens a session, a guest joins (\<open>Math.random()\<close> gives \<open>r\<close> twice), and the
  host starts the match.\<close>

definition guestJoined :: "real \<Rightarrow> (Env \<times> HostEvent) list" where
  "guestJoined r =
     [(surroundings [] r 0, ClickHost ''host''),
      (surroundings [] r 500, Receive (JOIN_REQUEST ''bob'' ELF) ''guest''),
      (surroundings [] r 1000, ClickStart)]"

text \<open>The guest's INPUT \<open>(1, 0)\<close> arrives, and the host runs its next frame.\<close>

definition inputThenFrame :: "(Env \<times> HostEvent) list" where
  "inputThenFrame =
     [(surroundings [] 0.25 1010, Receive (INPUT 1 0) ''guest''),
      (surroundings [] 0.25 1016, AnimationFrame 1016)]"

text \<open>The match runs down to its last 16 ms in one frame and ends in the next.\<close>

definition lastFrames :: "(Env \<times> HostEvent) list" where
  "lastFrames =
     [(surroundings [] 0.25 120984, AnimationFrame 120984),
      (surroundings [] 0.25 121004, AnimationFrame 121004)]"

lemma keyVector_range: "fst (keyVector ks) \<in> {-1, 0, 1} \<and> snd (keyVector ks) \<in> {-1, 0, 1}"
  by (simp add: keyVector_def Let_def)

section \<open>The collision loop and the winner: how they compute\<close>


lemma hit_score_update [simp]: "hit (p\<lparr>score := v\<rparr>) = hit p"
  by (rule ext) (simp add: hit_def)

lemma collect_snd: "snd (collect ev p prs) = filter (\<lambda>pr. \<not> hit p pr) prs"
  by (induction prs arbitrary: p) (auto simp: split_beta)

lemma collect_fst:
  "fst (collect ev p prs) = p\<lparr>score := score p + sum_list (map (points ev) (filter (hit p) prs))\<rparr>"
  by (induction prs arbitrary: p) (auto simp: split_beta add.assoc)


lemma collisions_length: "length (fst (collisions ev ps prs)) = length ps"
proof (induction ps arbitrary: prs)
  case Nil
  then show ?case by simp
next
  case (Cons kp ps)
  obtain k p where kp: "kp = (k, p)" by (cases kp)
  show ?case by (simp add: kp split_beta Cons.IH)
qed

lemma collisions_nth:
  "i < length ps \<Longrightarrow>
   fst (collisions ev ps prs) ! i =
     (fst (ps ! i),
      (snd (ps ! i))\<lparr>score := score (snd (ps ! i)) +
         sum_list (map (points ev)
           (filter (\<lambda>pr. hit (snd (ps ! i)) pr \<and> \<not> list_ex (\<lambda>kp. hit (snd kp) pr) (take i ps)) prs))\<rparr>)"
proof (induction ps arbitrary: prs i)
  case Nil
  then show ?case by simp
next
  case (Cons kp ps)
  obtain k p where kp: "kp = (k, p)" by (cases kp)
  show ?case
  proof (cases i)
    case 0
    then show ?thesis by (simp add: kp split_beta collect_fst)
  next
    case (Suc j)
    with Cons.prems have j: "j < length ps" by simp
    show ?thesis
      by (simp add: Suc kp split_beta collect_snd Cons.IH [OF j] conj_commute conj_left_commute)
  qed
qed



lemma sort_key_first_min:
  fixes f :: "'a \<Rightarrow> real"
  shows "xs \<noteq> [] \<Longrightarrow>
    \<exists>i<length xs. hd (sort_key f xs) = xs ! i \<and> (\<forall>j<length xs. f (xs ! i) \<le> f (xs ! j))
       \<and> (\<forall>j<i. f (xs ! i) < f (xs ! j))"
proof (induction xs)
  case Nil
  then show ?case by simp
next
  case (Cons x xs)
  show ?case
  proof (cases "xs = []")
    case True
    then show ?thesis by simp
  next
    case False
    from Cons.IH [OF False] obtain i where i: "i < length xs"
      and hd: "hd (sort_key f xs) = xs ! i"
      and le: "\<forall>j<length xs. f (xs ! i) \<le> f (xs ! j)"
      and lt: "\<forall>j<i. f (xs ! i) < f (xs ! j)" by blast
    have ne: "sort_key f xs \<noteq> []" using False by (metis length_0_conv length_sort)
    then obtain y ys where ys: "sort_key f xs = y # ys" by (cases "sort_key f xs") auto
    with hd have y: "y = xs ! i" by simp
    show ?thesis
    proof (cases "f x \<le> f y")
      case True
      have "hd (sort_key f (x # xs)) = x" using True ys by simp
      moreover have "\<forall>j<length (x # xs). f x \<le> f ((x # xs) ! j)"
        using True le y by (auto simp: nth_Cons split: nat.splits intro: order_trans)
      ultimately show ?thesis by (intro exI [of _ 0]) simp
    next
      case False
      have "hd (sort_key f (x # xs)) = (x # xs) ! Suc i" using False ys y by simp
      moreover have "\<forall>j<length (x # xs). f ((x # xs) ! Suc i) \<le> f ((x # xs) ! j)"
        using False le y by (auto simp: nth_Cons split: nat.splits)
      moreover have "\<forall>j<Suc i. f ((x # xs) ! Suc i) < f ((x # xs) ! j)"
        using False lt y by (auto simp: nth_Cons split: nat.splits)
      ultimately show ?thesis using i by (intro exI [of _ "Suc i"]) simp
    qed
  qed
qed

lemma eventTimer_keeps [simp]:
  "players (eventTimer dt s) = players s" "presents (eventTimer dt s) = presents s"
  "timeLeft (eventTimer dt s) = timeLeft s" "winnerId (eventTimer dt s) = winnerId s"
  by (simp_all add: eventTimer_def Let_def split: option.splits)

lemma applyInput_keeps [simp]:
  "presents (applyInput s me d) = presents s" "timeLeft (applyInput s me d) = timeLeft s"
  "activeEvent (applyInput s me d) = activeEvent s" "winnerId (applyInput s me d) = winnerId s"
  by (simp_all add: applyInput_def split: option.splits)

lemma map_update_same:
  "map_of ps k = Some p \<Longrightarrow> f (k, v) = f (k, p) \<Longrightarrow> map f (AList.update k v ps) = map f ps"
  by (induction ps) (auto split: if_splits)

lemma applyInput_scores [simp]:
  "map (\<lambda>kp. score (snd kp)) (players (applyInput s me d)) = map (\<lambda>kp. score (snd kp)) (players s)"
  by (simp add: applyInput_def movePlayer_def Let_def map_update_same split: option.splits)

lemma hostLogic_game_over:
  "timeLeft s - dt \<le> 0 \<Longrightarrow>
   hostLogic env time dt lv s =
     ((lv, s\<lparr>timeLeft := timeLeft s - dt\<rparr>), [OnGameOver (getWinner (players s))], False)"
  by (simp add: hostLogic_def Let_def)

lemma hostLogic_running:
  "0 < timeLeft s - dt \<Longrightarrow>
   snd (fst (hostLogic env time dt lv s)) =
     (eventTimer dt (s\<lparr>timeLeft := timeLeft s - dt\<rparr>))
       \<lparr>players := fst (collisions (activeEvent (eventTimer dt (s\<lparr>timeLeft := timeLeft s - dt\<rparr>)))
                        (players s) (presents s)),
        presents := spawnPresent env
                      (snd (collisions (activeEvent (eventTimer dt (s\<lparr>timeLeft := timeLeft s - dt\<rparr>)))
                        (players s) (presents s)))\<rparr>"
  by (simp add: hostLogic_def Let_def split_beta)

lemma getWinner_first_max:
  assumes "ps \<noteq> []"
  shows "\<exists>i<length ps. getWinner ps = pid (snd (ps ! i))
           \<and> (\<forall>j<length ps. score (snd (ps ! j)) \<le> score (snd (ps ! i)))
           \<and> (\<forall>j<i. score (snd (ps ! j)) < score (snd (ps ! i)))"
proof -
  from assms have ne: "map snd ps \<noteq> []" by simp
  from sort_key_first_min [OF ne, of "\<lambda>p. - score p"]
  obtain i where i: "i < length ps"
    and hd: "hd (sort_key (\<lambda>p. - score p) (map snd ps)) = snd (ps ! i)"
    and le: "\<forall>j<length ps. score (snd (ps ! j)) \<le> score (snd (ps ! i))"
    and lt: "\<forall>j<i. score (snd (ps ! j)) < score (snd (ps ! i))"
    by auto
  have "sort_key (\<lambda>p. - score p) (map snd ps) \<noteq> []"
    using ne by (metis length_0_conv length_sort)
  then have "getWinner ps = pid (hd (sort_key (\<lambda>p. - score p) (map snd ps)))"
    by (cases "sort_key (\<lambda>p. - score p) (map snd ps)") (simp_all add: getWinner_def)
  with i hd le lt show ?thesis by auto
qed

lemma getWinner_strict_max:
  assumes i: "i < length ps"
    and best: "\<forall>j<length ps. j \<noteq> i \<longrightarrow> score (snd (ps ! j)) < score (snd (ps ! i))"
  shows "getWinner ps = pid (snd (ps ! i))"
proof -
  from i have "ps \<noteq> []" by auto
  from getWinner_first_max [OF this] obtain k where k: "k < length ps"
    and w: "getWinner ps = pid (snd (ps ! k))"
    and le: "\<forall>j<length ps. score (snd (ps ! j)) \<le> score (snd (ps ! k))" by blast
  have "k = i"
  proof (rule ccontr)
    assume "k \<noteq> i"
    with best k have "score (snd (ps ! k)) < score (snd (ps ! i))" by simp
    moreover from le i have "score (snd (ps ! i)) \<le> score (snd (ps ! k))" by simp
    ultimately show False by simp
  qed
  with w show ?thesis by simp
qed

lemma integrate_keeps [simp]:
  "presents (integrate s me ks) = presents s" "timeLeft (integrate s me ks) = timeLeft s"
  "activeEvent (integrate s me ks) = activeEvent s" "winnerId (integrate s me ks) = winnerId s"
  "map (\<lambda>kp. score (snd kp)) (players (integrate s me ks)) = map (\<lambda>kp. score (snd kp)) (players s)"
  by (simp_all add: integrate_def Let_def)

lemma gameLoop_host:
  "gameLoop True me env time lv s
     = hostLogic env time ((time - lastTime lv) / 1000) (lv\<lparr>lastTime := time\<rparr>)
         (integrate s me (keys env))"
  by (simp add: gameLoop_def Let_def)

lemma frame_game_over:
  assumes "loop h = Some lv" and "gameState (app h) = Some s" and "isHost (app h)"
    and "timeLeft s - (time - lastTime lv) / 1000 \<le> 0"
  shows "hostStep (env, AnimationFrame time) h =
      h\<lparr>app := (app h)\<lparr>gameState :=
                 Some ((integrate s (myId (app h)) (keys env))
                         \<lparr>timeLeft := timeLeft s - (time - lastTime lv) / 1000,
                          winnerId := Some (getWinner (players (integrate s (myId (app h)) (keys env))))\<rparr>),
               phase := GAME_OVER\<rparr>,
        loop := None\<rparr>"
  using assms by (simp add: gameLoop_host hostLogic_game_over handleGameOver_def)

section \<open>Match end\<close>

text \<open>
  C5. On the host, a frame whose elapsed time uses up the remaining time leaves the
  remaining time at \<open>t - dt \<le> 0\<close>, ends the match (the winner is stored, the phase is
  GAME_OVER) and does nothing else of the tick: the active event, the presents and the
  scores are as before, nothing is sent, no event is requested and no further frame is
  asked for. The winner is the first player in iteration order among those with the
  highest score; in particular, a player whose score is strictly above every other
  player's wins, and the same state always gives the same winner.
\<close>

theorem match_end:
  assumes "loop h = Some lv" and "gameState (app h) = Some s" and "isHost (app h)"
    and "timeLeft s - (time - lastTime lv) / 1000 \<le> 0"
  shows "\<exists>s'. gameState (app (hostStep (env, AnimationFrame time) h)) = Some s'
      \<and> timeLeft s' = timeLeft s - (time - lastTime lv) / 1000 \<and> timeLeft s' \<le> 0
      \<and> winnerId s' = Some (getWinner (players s'))
      \<and> phase (app (hostStep (env, AnimationFrame time) h)) = GAME_OVER
      \<and> loop (hostStep (env, AnimationFrame time) h) = None
      \<and> outbox (hostStep (env, AnimationFrame time) h) = outbox h
      \<and> pending (hostStep (env, AnimationFrame time) h) = pending h
      \<and> presents s' = presents s \<and> activeEvent s' = activeEvent s
      \<and> map (\<lambda>kp. score (snd kp)) (players s') = map (\<lambda>kp. score (snd kp)) (players s)
      \<and> (players s' \<noteq> [] \<longrightarrow>
           (\<exists>i<length (players s'). getWinner (players s') = pid (snd (players s' ! i))
              \<and> (\<forall>j<length (players s'). score (snd (players s' ! j)) \<le> score (snd (players s' ! i)))
              \<and> (\<forall>j<i. score (snd (players s' ! j)) < score (snd (players s' ! i)))))
      \<and> (\<forall>i<length (players s').
            (\<forall>j<length (players s'). j \<noteq> i \<longrightarrow> score (snd (players s' ! j)) < score (snd (players s' ! i)))
            \<longrightarrow> getWinner (players s') = pid (snd (players s' ! i)))"
proof -
  define s1 where "s1 = integrate s (myId (app h)) (keys env)"
  define s' where "s' = s1\<lparr>timeLeft := timeLeft s - (time - lastTime lv) / 1000,
                            winnerId := Some (getWinner (players s1))\<rparr>"
  have step: "hostStep (env, AnimationFrame time) h =
                h\<lparr>app := (app h)\<lparr>gameState := Some s', phase := GAME_OVER\<rparr>, loop := None\<rparr>"
    using frame_game_over [OF assms, of env] by (simp add: s1_def s'_def)
  have keep: "presents s' = presents s" "activeEvent s' = activeEvent s"
    "map (\<lambda>kp. score (snd kp)) (players s') = map (\<lambda>kp. score (snd kp)) (players s)"
    "players s' = players s1"
    by (simp_all add: s'_def s1_def)
  have first: "players s' \<noteq> [] \<longrightarrow>
           (\<exists>i<length (players s'). getWinner (players s') = pid (snd (players s' ! i))
              \<and> (\<forall>j<length (players s'). score (snd (players s' ! j)) \<le> score (snd (players s' ! i)))
              \<and> (\<forall>j<i. score (snd (players s' ! j)) < score (snd (players s' ! i))))"
    using getWinner_first_max [of "players s'"] by blast
  have strict: "\<forall>i<length (players s').
            (\<forall>j<length (players s'). j \<noteq> i \<longrightarrow> score (snd (players s' ! j)) < score (snd (players s' ! i)))
            \<longrightarrow> getWinner (players s') = pid (snd (players s' ! i))"
    using getWinner_strict_max [of _ "players s'"] by blast
  have "gameState (app (hostStep (env, AnimationFrame time) h)) = Some s'"
    and "timeLeft s' = timeLeft s - (time - lastTime lv) / 1000" and "timeLeft s' \<le> 0"
    and "winnerId s' = Some (getWinner (players s'))"
    and "phase (app (hostStep (env, AnimationFrame time) h)) = GAME_OVER"
    and "loop (hostStep (env, AnimationFrame time) h) = None"
    and "outbox (hostStep (env, AnimationFrame time) h) = outbox h"
    and "pending (hostStep (env, AnimationFrame time) h) = pending h"
    using assms(4) unfolding step by (simp_all add: s'_def)
  with keep(1-3) first strict show ?thesis by blast
qed

text \<open>Two players tied at three points, 16 ms left, and a frame 20 ms after the last:
  the remaining time becomes \<open>-0.004\<close> and the first of the two wins.\<close>

theorem match_end_witness:
  "loop (playingHost tiedState) = Some \<lparr>lastTime = 1000, lastNetworkUpdate = 990, lastEventTrigger = 0\<rparr>
   \<and> gameState (app (playingHost tiedState)) = Some tiedState
   \<and> isHost (app (playingHost tiedState))
   \<and> timeLeft tiedState - (1020 - 1000) / 1000 \<le> 0
   \<and> (\<exists>s'. gameState (app (hostStep (surroundings [] 0.99 1020, AnimationFrame 1020)
                (playingHost tiedState))) = Some s'
          \<and> timeLeft s' = - 0.004 \<and> winnerId s' = Some ''host''
          \<and> phase (app (hostStep (surroundings [] 0.99 1020, AnimationFrame 1020)
                (playingHost tiedState))) = GAME_OVER)"
proof -
  have h1: "loop (playingHost tiedState)
              = Some \<lparr>lastTime = 1000, lastNetworkUpdate = 990, lastEventTrigger = 0\<rparr>"
    and h2: "gameState (app (playingHost tiedState)) = Some tiedState"
    and h3: "isHost (app (playingHost tiedState))"
    by (simp_all add: playingHost_def)
  have h4: "timeLeft tiedState
              - (1020 - lastTime \<lparr>lastTime = 1000, lastNetworkUpdate = 990, lastEventTrigger = 0\<rparr>) / 1000 \<le> 0"
    by (simp add: tiedState_def exampleState_def)
  from match_end [OF h1 h2 h3 h4, of "surroundings [] 0.99 1020"]
  obtain s' where s': "gameState (app (hostStep (surroundings [] 0.99 1020, AnimationFrame 1020)
                (playingHost tiedState))) = Some s'"
    and t: "timeLeft s' = timeLeft tiedState
              - (1020 - lastTime \<lparr>lastTime = 1000, lastNetworkUpdate = 990, lastEventTrigger = 0\<rparr>) / 1000"
    and w: "winnerId s' = Some (getWinner (players s'))"
    and sc: "map (\<lambda>kp. score (snd kp)) (players s') = map (\<lambda>kp. score (snd kp)) (players tiedState)"
    and ph: "phase (app (hostStep (surroundings [] 0.99 1020, AnimationFrame 1020)
                (playingHost tiedState))) = GAME_OVER"
    and first: "players s' \<noteq> [] \<longrightarrow>
           (\<exists>i<length (players s'). getWinner (players s') = pid (snd (players s' ! i))
              \<and> (\<forall>j<length (players s'). score (snd (players s' ! j)) \<le> score (snd (players s' ! i)))
              \<and> (\<forall>j<i. score (snd (players s' ! j)) < score (snd (players s' ! i))))"
    by blast
  have ps: "players s' = players tiedState"
    using s' by (auto simp add: playingHost_def gameLoop_def hostLogic_def integrate_def localInput_def keyVector_def
        surroundings_def tiedState_def exampleState_def examplePlayer_def eventType_def
        handleGameOver_def Let_def)
  have "getWinner (players tiedState) = ''host''"
    by (simp add: getWinner_def tiedState_def exampleState_def examplePlayer_def)
  with w ps have "winnerId s' = Some ''host''" by simp
  moreover from t have "timeLeft s' = - 0.004"
    by (simp add: tiedState_def exampleState_def)
  ultimately show ?thesis using h1 h2 h3 s' ph
    by (simp add: tiedState_def exampleState_def)
qed

section \<open>Collecting presents\<close>



section \<open>Installing a fetched event\<close>

lemma hostRun_lateFetch:
  "hostRun lateFetch (freshHost ''ann'' SANTA) =
     \<lparr>app = \<lparr>phase = GAME_OVER, myName = ''ann'', mySkin = SANTA, hostId = ''host'', joinId = '''',
             error = '''',
             gameState = Some \<lparr>players = [(''host'',
                 \<lparr>pid = ''host'', px = 400, py = 300, score = 0, skin = SANTA, pname = ''ann'',
                  pIsHost = True, vx = 0, vy = 0, frozen = None, inverted = None\<rparr>)],
               presents = [], activeEvent = None, timeLeft = - 0.5, winnerId = Some ''host''\<rparr>,
             myId = ''host'', isHost = True\<rparr>,
      loop = None,
      outbox = [(1000, Broadcast START_GAME),
                (31000, Broadcast (GAME_UPDATE \<lparr>players = [(''host'',
                 \<lparr>pid = ''host'', px = 400, py = 300, score = 0, skin = SANTA, pname = ''ann'',
                  pIsHost = True, vx = 0, vy = 0, frozen = None, inverted = None\<rparr>)],
               presents = [], activeEvent = None, timeLeft = 90, winnerId = None\<rparr>))],
      pending = 1\<rparr>"
  by (simp add: hostRun_def lateFetch_def freshHost_def initialApp_def initHost_def startGame_def
      mountLoop_def gameLoop_def hostLogic_def integrate_def localInput_def keyVector_def surroundings_def
      eventType_def eventTimer_def shouldTrigger_def spawnPresent_def getWinner_def
      handleGameOver_def Let_def CANVAS_WIDTH_def CANVAS_HEIGHT_def GAME_DURATION_def)

text \<open>
  C3 as stated fails: in the run \<open>lateFetch\<close> the match has ended (phase GAME_OVER, the
  winner stored, no event active) with one fetch in flight, and when that fetch resolves
  its event becomes the active event of the ended match.
\<close>

theorem late_event_counterexample:
  "phase (app (hostRun lateFetch (freshHost ''ann'' SANTA))) = GAME_OVER
   \<and> map_option winnerId (gameState (app (hostRun lateFetch (freshHost ''ann'' SANTA))))
       = Some (Some ''host'')
   \<and> map_option activeEvent (gameState (app (hostRun lateFetch (freshHost ''ann'' SANTA))))
       = Some None
   \<and> map_option activeEvent (gameState (app (hostStep
         (surroundings [] 0.99 122000, GeminiResolved (exampleEvent SLOWNESS))
         (hostRun lateFetch (freshHost ''ann'' SANTA)))))
       = Some (Some (exampleEvent SLOWNESS))"
  unfolding hostRun_lateFetch by (simp add: handleTriggerGemini_def mountLoop_def Let_def)

text \<open>
  C3 as amended. The install path checks the host role (before the fetch) and that a
  state exists (when it resolves), and nothing else: whenever a fetch resolves on a host
  that has a state, the fetched event becomes the active event, whatever the phase and
  the stored winner are, and the rest of the state is as it was. Without the host role
  or without a state, nothing changes.
\<close>

theorem late_event_installed:
  assumes "0 < pending h"
  shows "(isHost (app h) \<and> gameState (app h) = Some s \<longrightarrow>
            gameState (app (hostStep (env, GeminiResolved ev) h)) = Some (s\<lparr>activeEvent := Some ev\<rparr>)
          \<and> phase (app (hostStep (env, GeminiResolved ev) h)) = phase (app h))
       \<and> (\<not> isHost (app h) \<or> gameState (app h) = None \<longrightarrow>
            app (hostStep (env, GeminiResolved ev) h) = app h)"
  using assms by (auto simp add: handleTriggerGemini_def Let_def)

text \<open>The ended match of \<open>lateFetch\<close>, whose fetch resolves half a second later.\<close>

theorem late_event_installed_witness:
  "0 < pending (hostRun lateFetch (freshHost ''ann'' SANTA))
   \<and> isHost (app (hostRun lateFetch (freshHost ''ann'' SANTA)))
   \<and> phase (app (hostStep (surroundings [] 0.99 122000, GeminiResolved (exampleEvent SLOWNESS))
         (hostRun lateFetch (freshHost ''ann'' SANTA)))) = GAME_OVER
   \<and> map_option activeEvent (gameState (app (hostStep
         (surroundings [] 0.99 122000, GeminiResolved (exampleEvent SLOWNESS))
         (hostRun lateFetch (freshHost ''ann'' SANTA)))))
       = Some (Some (exampleEvent SLOWNESS))"
proof -
  let ?h = "hostRun lateFetch (freshHost ''ann'' SANTA)"
  have p: "0 < pending ?h" and i: "isHost (app ?h)" and ph: "phase (app ?h) = GAME_OVER"
    unfolding hostRun_lateFetch by simp_all
  obtain s where s: "gameState (app ?h) = Some s"
    unfolding hostRun_lateFetch by simp
  from late_event_installed [OF p, of s "surroundings [] 0.99 122000" "exampleEvent SLOWNESS"] i s
  have "gameState (app (hostStep (surroundings [] 0.99 122000, GeminiResolved (exampleEvent SLOWNESS)) ?h))
          = Some (s\<lparr>activeEvent := Some (exampleEvent SLOWNESS)\<rparr>)"
    and "phase (app (hostStep (surroundings [] 0.99 122000, GeminiResolved (exampleEvent SLOWNESS)) ?h))
          = phase (app ?h)"
    by blast+
  with p i ph show ?thesis by simp
qed

section \<open>The provider's fallback\<close>






section \<open>The frozen and inverted flags\<close>

lemma list_all_update:
  "list_all P ps \<Longrightarrow> P (k, v) \<Longrightarrow> list_all P (AList.update k v ps)"
  by (induction ps) auto

lemma list_all_map_of:
  "list_all P ps \<Longrightarrow> map_of ps k = Some v \<Longrightarrow> P (k, v)"
  by (induction ps) (auto split: if_splits)

lemma unflagged_applyInput: "unflagged s \<Longrightarrow> unflagged (applyInput s me d)"
  unfolding unflagged_def applyInput_def
  by (auto split: option.splits simp: movePlayer_def Let_def
      dest: list_all_map_of intro!: list_all_update)

lemma unflagged_collisions:
  "list_all (\<lambda>kp. frozen (snd kp) = None \<and> inverted (snd kp) = None) ps \<Longrightarrow>
   list_all (\<lambda>kp. frozen (snd kp) = None \<and> inverted (snd kp) = None) (fst (collisions ev ps prs))"
proof (induction ps arbitrary: prs)
  case Nil
  then show ?case by simp
next
  case (Cons kp ps)
  obtain k p where kp: "kp = (k, p)" by (cases kp)
  from Cons.prems have "list_all (\<lambda>kp. frozen (snd kp) = None \<and> inverted (snd kp) = None) ps"
    and "frozen p = None \<and> inverted p = None" by (simp_all add: kp)
  then show ?case
    using Cons.IH [of "snd (collect ev p prs)"] by (simp add: kp split_beta collect_fst)
qed

lemma unflagged_eventTimer: "unflagged (eventTimer dt s) = unflagged s"
  by (simp add: unflagged_def)

lemma unflagged_hostLogic:
  assumes "unflagged s"
  shows "unflagged (snd (fst (hostLogic env time dt lv s)))
       \<and> list_all (\<lambda>e. unflaggedOpt (carried e)) (fst (snd (hostLogic env time dt lv s)))"
proof (cases "timeLeft s - dt \<le> 0")
  case True
  with assms show ?thesis
    by (simp add: hostLogic_game_over unflagged_def unflaggedOpt_def)
next
  case False
  then have run: "0 < timeLeft s - dt" by simp
  have st: "unflagged (snd (fst (hostLogic env time dt lv s)))"
    unfolding hostLogic_running [OF run]
    using assms unflagged_collisions [of "players s"] by (simp add: unflagged_def)
  have fx: "fst (snd (hostLogic env time dt lv s)) = [] \<or>
            fst (snd (hostLogic env time dt lv s)) = [TriggerGeminiEvent] \<or>
            fst (snd (hostLogic env time dt lv s))
              = [Broadcast (GAME_UPDATE (snd (fst (hostLogic env time dt lv s))))] \<or>
            fst (snd (hostLogic env time dt lv s))
              = [TriggerGeminiEvent, Broadcast (GAME_UPDATE (snd (fst (hostLogic env time dt lv s))))]"
    using False by (simp add: hostLogic_def Let_def split_beta)
  from st fx show ?thesis by (auto simp add: unflaggedOpt_def)
qed

lemma unflagged_integrate: "unflagged s \<Longrightarrow> unflagged (integrate s me ks)"
  by (simp add: integrate_def Let_def unflagged_applyInput)

lemma unflagged_gameLoop:
  assumes "unflagged s"
  shows "unflagged (snd (fst (gameLoop ih me env time lv s)))
       \<and> list_all (\<lambda>e. unflaggedOpt (carried e)) (fst (snd (gameLoop ih me env time lv s)))"
proof (cases ih)
  case True
  then show ?thesis
    using unflagged_hostLogic [OF unflagged_integrate [OF assms]] by (simp add: gameLoop_host)
next
  case False
  with assms show ?thesis by (simp add: gameLoop_def Let_def unflaggedOpt_def)
qed

lemma unflagged_perform:
  "allUnflagged h \<Longrightarrow> unflaggedOpt (carried e) \<Longrightarrow> allUnflagged (perform t e h)"
  by (cases "(t, e, h)" rule: perform.cases)
     (auto simp add: allUnflagged_def unflaggedOpt_def unflagged_def handleGameOver_def
        split: option.splits)

lemma unflagged_performs:
  "allUnflagged h \<Longrightarrow> list_all (\<lambda>e. unflaggedOpt (carried e)) fx \<Longrightarrow>
   allUnflagged (fold (perform t) fx h)"
  by (induction fx arbitrary: h) (auto intro: unflagged_perform)

lemma unflagged_hostStep: "allUnflagged h \<Longrightarrow> allUnflagged (hostStep ev h)"
proof (cases "(ev, h)" rule: hostStep.cases)
  case (1 env ident h')
  assume a: "allUnflagged h"
  with 1 show ?thesis
    by (auto simp add: allUnflagged_def unflaggedOpt_def unflagged_def initHost_def Let_def)
next
  case (2 env msg src h')
  assume a: "allUnflagged h"
  show ?thesis
  proof (cases "hostOnMessage env msg src (app h)")
    case None
    with 2 a show ?thesis by simp
  next
    case (Some r)
    obtain a' fx where r: "r = (a', fx)" by (cases r)
    from Some r obtain nm sk prev where m: "msg = JOIN_REQUEST nm sk"
      and prev: "gameState (app h) = Some prev"
      by (auto simp add: hostOnMessage_def split: NetworkMessage.splits option.splits)
    from a prev have up: "unflagged prev" by (simp add: allUnflagged_def unflaggedOpt_def)
    define newPlayer where "newPlayer =
        \<lparr>pid = src, px = random env 0 * CANVAS_WIDTH, py = random env 1 * CANVAS_HEIGHT,
         score = 0, skin = sk, pname = nm, pIsHost = False, vx = 0, vy = 0, frozen = None,
         inverted = None\<rparr>"
    define next' where "next' = prev\<lparr>players := AList.update src newPlayer (players prev)\<rparr>"
    from Some r m prev have a': "a' = (app h)\<lparr>gameState := Some next'\<rparr>"
      and fx: "fx = [SendToPeer src (JOIN_ACCEPT next' src)]"
      by (simp_all add: hostOnMessage_def Let_def next'_def newPlayer_def)
    have nx: "unflagged next'"
      using up by (auto simp add: unflagged_def next'_def newPlayer_def intro!: list_all_update)
    have "allUnflagged (h\<lparr>app := a', loop := mountLoop (now env) a'\<rparr>)"
      using a nx by (simp add: allUnflagged_def a' unflaggedOpt_def)
    moreover have "list_all (\<lambda>e. unflaggedOpt (carried e)) fx"
      using nx by (simp add: fx unflaggedOpt_def)
    ultimately have "allUnflagged (fold (perform (now env)) fx (h\<lparr>app := a', loop := mountLoop (now env) a'\<rparr>))"
      by (rule unflagged_performs)
    with 2 Some r a show ?thesis by simp
  qed
next
  case (3 env h')
  assume a: "allUnflagged h"
  with 3 show ?thesis
    by (auto simp add: startGame_def allUnflagged_def unflaggedOpt_def split: option.splits)
next
  case (4 env time h')
  assume a: "allUnflagged h"
  show ?thesis
  proof (cases "loop h")
    case None
    with 4 a show ?thesis by simp
  next
    case (Some lv)
    show ?thesis
    proof (cases "gameState (app h)")
      case None
      with 4 a Some show ?thesis by simp
    next
      case s: (Some s)
      from a s have us: "unflagged s" by (simp add: allUnflagged_def unflaggedOpt_def)
      let ?r = "gameLoop (isHost (app h)) (myId (app h)) env time lv s"
      from unflagged_gameLoop [OF us, of "isHost (app h)" "myId (app h)" env time lv]
      have st: "unflagged (snd (fst ?r))"
        and fx: "list_all (\<lambda>e. unflaggedOpt (carried e)) (fst (snd ?r))" by simp_all
      have "allUnflagged (h\<lparr>app := (app h)\<lparr>gameState := Some (snd (fst ?r))\<rparr>, loop := l\<rparr>)" for l
        using a st by (simp add: allUnflagged_def unflaggedOpt_def)
      from unflagged_performs [OF this fx, of time] 4 Some s show ?thesis
        by (simp add: split_beta)
    qed
  qed
next
  case (5 env event h')
  assume a: "allUnflagged h"
  with 5 show ?thesis
    by (auto simp add: allUnflagged_def unflaggedOpt_def unflagged_def handleTriggerGemini_def
        Let_def split: option.splits)
qed

lemma unflagged_hostRun: "allUnflagged h \<Longrightarrow> allUnflagged (hostRun evs h)"
  unfolding hostRun_def by (induction evs arbitrary: h) (auto intro: unflagged_hostStep)

lemma points_not_doubled:
  "map_option etype ev \<noteq> Some DOUBLE_POINTS \<Longrightarrow> points ev = points None"
  by (cases ev) (auto simp add: points_def fun_eq_iff)

lemma collect_points_cong: "points ev = points ev' \<Longrightarrow> collect ev p prs = collect ev' p prs"
  by (induction prs arbitrary: p) (auto simp add: split_beta)

lemma collisions_points_cong:
  "points ev = points ev' \<Longrightarrow> collisions ev ps prs = collisions ev' ps prs"
proof (induction ps arbitrary: prs)
  case Nil
  then show ?case by simp
next
  case (Cons kp ps)
  obtain k p where kp: "kp = (k, p)" by (cases kp)
  from Cons show ?case by (simp add: kp split_beta collect_points_cong [of ev ev'])
qed

lemma freeze_changes_nothing:
  assumes "etype e = FREEZE"
  shows "players (snd (fst (gameLoop True me env time lv (s\<lparr>activeEvent := Some e\<rparr>))))
           = players (snd (fst (gameLoop True me env time lv (s\<lparr>activeEvent := None\<rparr>))))
       \<and> presents (snd (fst (gameLoop True me env time lv (s\<lparr>activeEvent := Some e\<rparr>))))
           = presents (snd (fst (gameLoop True me env time lv (s\<lparr>activeEvent := None\<rparr>))))"
proof -
  let ?sf = "s\<lparr>activeEvent := Some e\<rparr>" and ?sn = "s\<lparr>activeEvent := None\<rparr>"
  let ?dt = "(time - lastTime lv) / 1000"
  have inp: "localInput ?sf me ks = localInput ?sn me ks" for ks
    using assms by (simp add: localInput_def eventType_def Let_def split_beta split: option.splits)
  have sp: "moveSpeed ?sf = moveSpeed ?sn"
    using assms by (simp add: moveSpeed_def eventType_def)
  define s1 where "s1 = integrate ?sn me (keys env)"
  have s1f: "integrate ?sf me (keys env) = s1\<lparr>activeEvent := Some e\<rparr>"
    using sp by (simp add: s1_def integrate_def inp Let_def applyInput_def split: option.splits)
  have s1n: "activeEvent s1 = None" by (simp add: s1_def)
  have gf: "gameLoop True me env time lv ?sf = hostLogic env time ?dt (lv\<lparr>lastTime := time\<rparr>) (s1\<lparr>activeEvent := Some e\<rparr>)"
    by (simp only: gameLoop_host s1f)
  have gn: "gameLoop True me env time lv ?sn = hostLogic env time ?dt (lv\<lparr>lastTime := time\<rparr>) s1"
    by (simp only: gameLoop_host s1_def)
  have pts: "points (activeEvent (eventTimer ?dt (s1\<lparr>activeEvent := Some e, timeLeft := timeLeft s1 - ?dt\<rparr>)))
           = points None"
    using assms by (intro points_not_doubled) (simp add: eventTimer_def Let_def)
  have ptn: "activeEvent (eventTimer ?dt (s1\<lparr>timeLeft := timeLeft s1 - ?dt\<rparr>)) = None"
    using s1n by (simp add: eventTimer_def)
  show ?thesis
  proof (cases "timeLeft s1 - ?dt \<le> 0")
    case True
    then show ?thesis by (simp add: gf gn hostLogic_game_over)
  next
    case False
    then have run: "0 < timeLeft s1 - ?dt" by simp
    from run have runf: "0 < timeLeft (s1\<lparr>activeEvent := Some e\<rparr>) - ?dt" by simp
    show ?thesis
      unfolding gf gn hostLogic_running [OF run] hostLogic_running [OF runf]
      using collisions_points_cong [OF pts, of "players s1" "presents s1"]
      by (simp add: ptn)
  qed
qed

text \<open>
  C10. Along every run of the host, from the menu on, every player of the host's state and
  of every state the host has sent to a client (the states the clients hold) has neither
  flag set: \<open>frozen\<close> and \<open>inverted\<close> are absent, hence falsy. And an active FREEZE event
  moves and scores the players exactly as no event does: a host callback on a state with
  a FREEZE event and on the same state without an event end with the same players
  (positions and scores) and the same presents.
\<close>

theorem never_frozen:
  "allUnflagged (hostRun evs (freshHost nm sk))
   \<and> (etype e = FREEZE \<longrightarrow>
        players (snd (fst (gameLoop True me env time lv (s\<lparr>activeEvent := Some e\<rparr>))))
          = players (snd (fst (gameLoop True me env time lv (s\<lparr>activeEvent := None\<rparr>))))
      \<and> presents (snd (fst (gameLoop True me env time lv (s\<lparr>activeEvent := Some e\<rparr>))))
          = presents (snd (fst (gameLoop True me env time lv (s\<lparr>activeEvent := None\<rparr>)))))"
proof -
  have "allUnflagged (freshHost nm sk)"
    by (simp add: allUnflagged_def freshHost_def initialApp_def unflaggedOpt_def)
  then have "allUnflagged (hostRun evs (freshHost nm sk))" by (rule unflagged_hostRun)
  with freeze_changes_nothing show ?thesis by blast
qed

text \<open>The run \<open>lateFetch\<close>, and a FREEZE event over the two players of \<open>crowdedState\<close>
  with the right-arrow key held: the host moves by the full base speed and both score.\<close>

theorem never_frozen_witness:
  "allUnflagged (hostRun lateFetch (freshHost ''ann'' SANTA))
   \<and> etype (exampleEvent FREEZE) = FREEZE
   \<and> map (\<lambda>kp. (px (snd kp), score (snd kp)))
       (players (snd (fst (gameLoop True ''host'' (surroundings [''ArrowRight''] 0.99 1016) 1016
          \<lparr>lastTime = 1000, lastNetworkUpdate = 990, lastEventTrigger = 0\<rparr>
          (crowdedState\<lparr>activeEvent := Some (exampleEvent FREEZE)\<rparr>)))))
       = [(405, 5), (410, 1)]"
proof -
  let ?lv = "\<lparr>lastTime = 1000, lastNetworkUpdate = 990, lastEventTrigger = 0\<rparr>"
  let ?env = "surroundings [''ArrowRight''] 0.99 1016"
  have f: "etype (exampleEvent FREEZE) = FREEZE" by (simp add: exampleEvent_def)
  note t = never_frozen [of lateFetch "''ann''" SANTA "exampleEvent FREEZE" "''host''" ?env 1016 ?lv
      crowdedState]
  from t have u: "allUnflagged (hostRun lateFetch (freshHost ''ann'' SANTA))" by blast
  from t f have eq: "players (snd (fst (gameLoop True ''host'' ?env 1016 ?lv
          (crowdedState\<lparr>activeEvent := Some (exampleEvent FREEZE)\<rparr>))))
      = players (snd (fst (gameLoop True ''host'' ?env 1016 ?lv (crowdedState\<lparr>activeEvent := None\<rparr>))))"
    by blast
  have "map (\<lambda>kp. (px (snd kp), score (snd kp)))
          (players (snd (fst (gameLoop True ''host'' ?env 1016 ?lv (crowdedState\<lparr>activeEvent := None\<rparr>)))))
      = [(405, 5), (410, 1)]"
    by (simp add: gameLoop_def hostLogic_def integrate_def localInput_def keyVector_def
        applyInput_def movePlayer_def moveSpeed_def surroundings_def eventType_def eventTimer_def
        shouldTrigger_def spawnPresent_def crowdedState_def exampleState_def examplePlayer_def
        hit_def points_def Let_def CANVAS_WIDTH_def CANVAS_HEIGHT_def PLAYER_SIZE_def
        PRESENT_SIZE_def MOVEMENT_SPEED_def)
  with u f eq show ?thesis by simp
qed

section \<open>Snapshot cadence\<close>

lemma hostLogic_shape:
  assumes "0 < timeLeft s - dt"
  shows "\<exists>lv' s' trig.
           hostLogic env time dt lv s =
             ((lv', s'),
              (if trig then [TriggerGeminiEvent] else []) @
              (if 40 < time - lastNetworkUpdate lv then [Broadcast (GAME_UPDATE s')] else []),
              True)
         \<and> lastNetworkUpdate lv'
             = (if 40 < time - lastNetworkUpdate lv then time else lastNetworkUpdate lv)"
  using assms by (auto simp add: hostLogic_def Let_def split_beta)

lemma snapshotTimes_perform:
  "snapshotTimes (perform t e h) = snapshotTimes h @ (if isSnapshot e then [t] else [])"
  by (cases "(t, e, h)" rule: perform.cases) (simp_all add: snapshotTimes_def)

lemma snapshotTimes_update [simp]:
  "snapshotTimes (h\<lparr>app := a, loop := l\<rparr>) = snapshotTimes h"
  by (simp add: snapshotTimes_def)

text \<open>What one frame adds to the snapshots, and what it leaves in \<open>lastNetworkUpdate\<close>.\<close>

lemma frame_snapshot:
  assumes "loop h = Some lv"
  shows "(snapshotTimes (hostStep (env, AnimationFrame time) h) = snapshotTimes h
            \<and> (loop (hostStep (env, AnimationFrame time) h) = None
               \<or> (\<exists>lv'. loop (hostStep (env, AnimationFrame time) h) = Some lv'
                     \<and> lastNetworkUpdate lv' = lastNetworkUpdate lv)))
       \<or> (snapshotTimes (hostStep (env, AnimationFrame time) h) = snapshotTimes h @ [time]
            \<and> 40 < time - lastNetworkUpdate lv
            \<and> (\<exists>lv'. loop (hostStep (env, AnimationFrame time) h) = Some lv'
                  \<and> lastNetworkUpdate lv' = time))"
proof (cases "gameState (app h)")
  case None
  with assms show ?thesis by simp
next
  case (Some s)
  show ?thesis
  proof (cases "isHost (app h)")
    case False
    with assms Some show ?thesis
      by (simp add: gameLoop_def Let_def snapshotTimes_def)
  next
    case True
    let ?s1 = "integrate s (myId (app h)) (keys env)"
    let ?dt = "(time - lastTime lv) / 1000"
    show ?thesis
    proof (cases "timeLeft ?s1 - ?dt \<le> 0")
      case over: True
      with assms Some True show ?thesis
        by (simp add: gameLoop_host hostLogic_game_over snapshotTimes_perform)
    next
      case False
      then have "0 < timeLeft ?s1 - ?dt" by simp
      from hostLogic_shape [OF this, of env time "lv\<lparr>lastTime := time\<rparr>"]
      obtain lv' s' trig where r: "hostLogic env time ?dt (lv\<lparr>lastTime := time\<rparr>) ?s1 =
             ((lv', s'),
              (if trig then [TriggerGeminiEvent] else []) @
              (if 40 < time - lastNetworkUpdate lv then [Broadcast (GAME_UPDATE s')] else []),
              True)"
        and l: "lastNetworkUpdate lv'
             = (if 40 < time - lastNetworkUpdate lv then time else lastNetworkUpdate lv)"
        by auto
      from assms Some True r l show ?thesis
        by (simp add: gameLoop_host snapshotTimes_def)
    qed
  qed
qed

lemma frameOrInput_cases:
  "frameOrInput ev \<Longrightarrow>
   (\<exists>env time. ev = (env, AnimationFrame time)) \<or> (\<exists>env dx dy src. ev = (env, Receive (INPUT dx dy) src))"
  by (cases ev rule: frameOrInput.cases) simp_all

text \<open>
  What the throttle does achieve: within one run of the loop, that is along frames and
  INPUT messages with no update of the component's state in between, the snapshots
  broadcast are more than 40 ms apart, and the first is more than 40 ms after the loop's
  \<open>lastNetworkUpdate\<close> at the start, however close the frames are; a host without a
  running loop broadcasts none.
\<close>

lemma cadence_run:
  "list_all frameOrInput evs \<Longrightarrow>
   \<exists>new. snapshotTimes (hostRun evs h) = snapshotTimes h @ new
        \<and> (case loop h of
             None \<Rightarrow> new = []
           | Some lv \<Rightarrow> successively (\<lambda>t1 t2. 40 < t2 - t1) (lastNetworkUpdate lv # new))"
proof (induction evs arbitrary: h)
  case Nil
  then show ?case by (simp add: hostRun_def split: option.splits)
next
  case (Cons ev evs)
  from Cons.prems have fi: "frameOrInput ev" and rest: "list_all frameOrInput evs" by simp_all
  have run: "hostRun (ev # evs) h = hostRun evs (hostStep ev h)" by (simp add: hostRun_def)
  from Cons.IH [OF rest, of "hostStep ev h"] obtain new where
    n: "snapshotTimes (hostRun evs (hostStep ev h)) = snapshotTimes (hostStep ev h) @ new"
    and g: "case loop (hostStep ev h) of
             None \<Rightarrow> new = []
           | Some lv \<Rightarrow> successively (\<lambda>t1 t2. 40 < t2 - t1) (lastNetworkUpdate lv # new)"
    by blast
  from frameOrInput_cases [OF fi] show ?case
  proof
    assume "\<exists>env dx dy src. ev = (env, Receive (INPUT dx dy) src)"
    then have "hostStep ev h = h" by (auto simp add: hostOnMessage_def)
    with n g run show ?thesis by auto
  next
    assume "\<exists>env time. ev = (env, AnimationFrame time)"
    then obtain env time where ev: "ev = (env, AnimationFrame time)" by blast
    show ?thesis
    proof (cases "loop h")
      case None
      then have "hostStep ev h = h" by (simp add: ev)
      with n g run show ?thesis by auto
    next
      case (Some lv)
      from frame_snapshot [OF Some, of env time] show ?thesis
      proof (elim disjE conjE exE)
        assume "snapshotTimes (hostStep (env, AnimationFrame time) h) = snapshotTimes h"
          and "loop (hostStep (env, AnimationFrame time) h) = None"
        with n g run Some show ?thesis by (auto simp add: ev)
      next
        fix lv'
        assume "snapshotTimes (hostStep (env, AnimationFrame time) h) = snapshotTimes h"
          and "loop (hostStep (env, AnimationFrame time) h) = Some lv'"
          and "lastNetworkUpdate lv' = lastNetworkUpdate lv"
        with n g run Some show ?thesis by (auto simp add: ev)
      next
        fix lv'
        assume "snapshotTimes (hostStep (env, AnimationFrame time) h) = snapshotTimes h @ [time]"
          and "40 < time - lastNetworkUpdate lv"
          and "loop (hostStep (env, AnimationFrame time) h) = Some lv'"
          and "lastNetworkUpdate lv' = time"
        with n g run Some show ?thesis by (auto simp add: ev)
      qed
    qed
  qed
qed

text \<open>
  C9 fails on the code. The loop's \<open>lastNetworkUpdate\<close> is a variable of one run of the
  loop effect, and the effect runs again whenever the component's state is replaced, so
  the throttle of lines 175-176 forgets the last snapshot: in \<open>restartRun\<close> the host
  broadcasts at 31000 ms, the event it asked for is installed 5 ms later, and the
  restarted loop broadcasts again at 31016 ms, 16 ms after the last snapshot.
\<close>

theorem restart_breaks_cadence:
  "snapshotTimes (hostRun restartRun (freshHost ''ann'' SANTA)) = [31000, 31016]
   \<and> \<not> (40 \<le> 31016 - (31000 :: real))"
  by (simp add: hostRun_def restartRun_def freshHost_def initialApp_def initHost_def startGame_def
      mountLoop_def gameLoop_def hostLogic_def integrate_def localInput_def keyVector_def
      surroundings_def eventType_def eventTimer_def shouldTrigger_def spawnPresent_def
      handleTriggerGemini_def exampleEvent_def snapshotTimes_def Let_def GAME_DURATION_def)

section \<open>Remote input\<close>

lemma collisions_positions:
  "map (\<lambda>kp. (fst kp, px (snd kp), py (snd kp))) (fst (collisions ev ps prs))
     = map (\<lambda>kp. (fst kp, px (snd kp), py (snd kp))) ps"
  by (rule nth_equalityI) (simp_all add: collisions_length collisions_nth)

lemma map_of_positions:
  "map_of (map (\<lambda>kp. (fst kp, px (snd kp), py (snd kp))) ps) k
     = map_option (\<lambda>p. (px p, py p)) (map_of ps k)"
  by (induction ps) auto

lemma integrate_others: "k \<noteq> me \<Longrightarrow> map_of (players (integrate s me ks)) k = map_of (players s) k"
  by (simp add: integrate_def applyInput_def Let_def update_conv' split: option.splits)

lemma hostLogic_positions:
  "map_option (\<lambda>p. (px p, py p)) (map_of (players (snd (fst (hostLogic env time dt lv s)))) k)
     = map_option (\<lambda>p. (px p, py p)) (map_of (players s) k)"
proof (cases "timeLeft s - dt \<le> 0")
  case True
  then show ?thesis by (simp add: hostLogic_game_over)
next
  case False
  then have run: "0 < timeLeft s - dt" by simp
  show ?thesis
    unfolding hostLogic_running [OF run]
    by (simp add: map_of_positions [symmetric] collisions_positions)
qed

text \<open>
  What the host does with remote input: an INPUT message changes nothing on the host,
  whoever sent it and whatever it holds, and a callback of the loop leaves every player
  but the local one where it was.
\<close>

lemma input_message_ignored: "hostStep (env, Receive (INPUT dx dy) src) h = h"
  by (simp add: hostOnMessage_def)

lemma only_local_player_moves:
  assumes "k \<noteq> me"
  shows "map_option (\<lambda>p. (px p, py p)) (map_of (players (snd (fst (gameLoop ih me env time lv s)))) k)
       = map_option (\<lambda>p. (px p, py p)) (map_of (players s) k)"
proof (cases ih)
  case True
  then show ?thesis
    by (simp add: gameLoop_host hostLogic_positions integrate_others [OF assms])
next
  case False
  then show ?thesis by (simp add: gameLoop_def Let_def)
qed

lemma hostRun_guestJoined:
  "hostRun (guestJoined r) (freshHost ''ann'' SANTA) =
     \<lparr>app = \<lparr>phase = PLAYING, myName = ''ann'', mySkin = SANTA, hostId = ''host'', joinId = '''',
             error = '''',
             gameState = Some \<lparr>players =
                 [(''host'', \<lparr>pid = ''host'', px = 400, py = 300, score = 0, skin = SANTA,
                     pname = ''ann'', pIsHost = True, vx = 0, vy = 0, frozen = None, inverted = None\<rparr>),
                  (''guest'', \<lparr>pid = ''guest'', px = r * 800, py = r * 600, score = 0, skin = ELF,
                     pname = ''bob'', pIsHost = False, vx = 0, vy = 0, frozen = None, inverted = None\<rparr>)],
               presents = [], activeEvent = None, timeLeft = 120, winnerId = None\<rparr>,
             myId = ''host'', isHost = True\<rparr>,
      loop = Some \<lparr>lastTime = 1000, lastNetworkUpdate = 0, lastEventTrigger = 0\<rparr>,
      outbox = [(500, SendToPeer ''guest'' (JOIN_ACCEPT \<lparr>players =
                 [(''host'', \<lparr>pid = ''host'', px = 400, py = 300, score = 0, skin = SANTA,
                     pname = ''ann'', pIsHost = True, vx = 0, vy = 0, frozen = None, inverted = None\<rparr>),
                  (''guest'', \<lparr>pid = ''guest'', px = r * 800, py = r * 600, score = 0, skin = ELF,
                     pname = ''bob'', pIsHost = False, vx = 0, vy = 0, frozen = None, inverted = None\<rparr>)],
               presents = [], activeEvent = None, timeLeft = 120, winnerId = None\<rparr> ''guest'')),
                (1000, Broadcast START_GAME)],
      pending = 0\<rparr>"
  by (simp add: hostRun_def guestJoined_def freshHost_def initialApp_def initHost_def
      hostOnMessage_def startGame_def mountLoop_def surroundings_def Let_def CANVAS_WIDTH_def
      CANVAS_HEIGHT_def GAME_DURATION_def)

text \<open>
  C1 fails on the code. A guest at \<open>(200, 150)\<close> holds the right-arrow key: its own
  callback sends INPUT \<open>(1, 0)\<close> to the host; the host's listener drops the message, and
  after the host's next frame the guest is still at \<open>(200, 150)\<close> in the host's state.
\<close>

theorem remote_input_not_applied:
  "positionOf ''guest'' (hostRun (guestJoined 0.25) (freshHost ''ann'' SANTA)) = Some (200, 150)
   \<and> fst (snd (gameLoop False ''guest'' (surroundings [''ArrowRight''] 0.25 1010) 1010
        \<lparr>lastTime = 1000, lastNetworkUpdate = 0, lastEventTrigger = 0\<rparr>
        (exampleState [(''host'', examplePlayer ''host'' 400 300 0),
                       (''guest'', examplePlayer ''guest'' 200 150 0)] [] None 120)))
       = [SendToHost (INPUT 1 0)]
   \<and> positionOf ''guest'' (hostRun inputThenFrame (hostRun (guestJoined 0.25) (freshHost ''ann'' SANTA)))
       = Some (200, 150)"
  unfolding hostRun_guestJoined
  by (simp add: positionOf_def hostRun_def inputThenFrame_def hostOnMessage_def gameLoop_def
      hostLogic_def integrate_def localInput_def keyVector_def surroundings_def eventType_def
      eventTimer_def shouldTrigger_def spawnPresent_def exampleState_def examplePlayer_def Let_def)

text \<open>In that run the guest's position on the host is the same before the message and
  after the frame.\<close>

theorem remote_input_not_applied_witness:
  "positionOf ''guest'' (hostRun inputThenFrame (hostRun (guestJoined 0.25) (freshHost ''ann'' SANTA)))
     = positionOf ''guest'' (hostRun (guestJoined 0.25) (freshHost ''ann'' SANTA))"
  using remote_input_not_applied by simp

section \<open>Announcing the end of the match\<close>

lemma gameLoop_never_announces:
  "list_all (\<lambda>e. \<not> gameOverMessage e) (fst (snd (gameLoop ih me env time lv s)))"
  by (simp add: gameLoop_def hostLogic_def Let_def split_beta)

lemma perform_never_announces:
  "list_all (\<lambda>te. \<not> gameOverMessage (snd te)) (outbox h) \<Longrightarrow> \<not> gameOverMessage e \<Longrightarrow>
   list_all (\<lambda>te. \<not> gameOverMessage (snd te)) (outbox (perform t e h))"
  by (cases "(t, e, h)" rule: perform.cases) simp_all

lemma performs_never_announce:
  "list_all (\<lambda>te. \<not> gameOverMessage (snd te)) (outbox h) \<Longrightarrow> list_all (\<lambda>e. \<not> gameOverMessage e) fx \<Longrightarrow>
   list_all (\<lambda>te. \<not> gameOverMessage (snd te)) (outbox (fold (perform t) fx h))"
  by (induction fx arbitrary: h) (auto intro: perform_never_announces)

lemma hostStep_never_announces:
  assumes "list_all (\<lambda>te. \<not> gameOverMessage (snd te)) (outbox h)"
  shows "list_all (\<lambda>te. \<not> gameOverMessage (snd te)) (outbox (hostStep ev h))"
proof (cases "(ev, h)" rule: hostStep.cases)
  case (1 env ident h')
  with assms show ?thesis by simp
next
  case (2 env msg src h')
  with assms show ?thesis
    by (cases msg) (auto simp add: hostOnMessage_def Let_def split: option.splits)
next
  case (3 env h')
  with assms show ?thesis by (auto simp add: startGame_def)
next
  case (4 env time h')
  show ?thesis
  proof (cases "loop h")
    case None
    with 4 assms show ?thesis by simp
  next
    case (Some lv)
    show ?thesis
    proof (cases "gameState (app h)")
      case None
      with 4 assms Some show ?thesis by simp
    next
      case s: (Some s)
      let ?r = "gameLoop (isHost (app h)) (myId (app h)) env time lv s"
      have "list_all (\<lambda>te. \<not> gameOverMessage (snd te))
              (outbox (h\<lparr>app := (app h)\<lparr>gameState := Some (snd (fst ?r))\<rparr>, loop := l\<rparr>))" for l
        using assms by simp
      from performs_never_announce [OF this gameLoop_never_announces, of time] 4 Some s
      show ?thesis by (simp add: split_beta)
    qed
  qed
next
  case (5 env event h')
  with assms show ?thesis by (simp add: Let_def)
qed

text \<open>No run of the host ever sends a GAME_OVER message.\<close>

lemma game_over_never_sent:
  "list_all (\<lambda>te. \<not> gameOverMessage (snd te)) (outbox (hostRun evs (freshHost nm sk)))"
proof -
  have "list_all (\<lambda>te. \<not> gameOverMessage (snd te)) (outbox h) \<Longrightarrow>
        list_all (\<lambda>te. \<not> gameOverMessage (snd te)) (outbox (hostRun evs h))" for h
    unfolding hostRun_def by (induction evs arbitrary: h) (auto intro: hostStep_never_announces)
  then show ?thesis by (simp add: freshHost_def)
qed

text \<open>
  C2 fails on the code. With a guest connected, the match runs down to its last 16 ms
  and the next frame, 20 ms later, ends it: the host stores the winner and shows the
  game-over screen, and everything it has sent by then is the JOIN_ACCEPT, the
  START_GAME and one snapshot; no GAME_OVER message among them.
\<close>

theorem game_over_not_announced:
  "phase (app (hostRun lastFrames (hostRun (guestJoined 0.25) (freshHost ''ann'' SANTA)))) = GAME_OVER
   \<and> map_option winnerId (gameState (app (hostRun lastFrames (hostRun (guestJoined 0.25)
        (freshHost ''ann'' SANTA))))) = Some (Some ''host'')
   \<and> map_option timeLeft (gameState (app (hostRun lastFrames (hostRun (guestJoined 0.25)
        (freshHost ''ann'' SANTA))))) = Some (- 0.004)
   \<and> map fst (outbox (hostRun lastFrames (hostRun (guestJoined 0.25) (freshHost ''ann'' SANTA))))
       = [500, 1000, 120984]
   \<and> filter (\<lambda>te. gameOverMessage (snd te))
       (outbox (hostRun lastFrames (hostRun (guestJoined 0.25) (freshHost ''ann'' SANTA)))) = []"
  unfolding hostRun_guestJoined
  by (simp add: hostRun_def lastFrames_def gameLoop_def hostLogic_def integrate_def localInput_def
      keyVector_def surroundings_def eventType_def eventTimer_def shouldTrigger_def
      spawnPresent_def getWinner_def handleGameOver_def Let_def)

section \<open>Positions and the arena\<close>

text \<open>The input integration clamps: a player it has moved is inside the arena.\<close>

lemma movePlayer_in_bounds:
  "0 \<le> px (movePlayer sp d p) \<and> px (movePlayer sp d p) \<le> CANVAS_WIDTH - PLAYER_SIZE
   \<and> 0 \<le> py (movePlayer sp d p) \<and> py (movePlayer sp d p) \<le> CANVAS_HEIGHT - PLAYER_SIZE"
  by (simp add: movePlayer_def Let_def CANVAS_WIDTH_def CANVAS_HEIGHT_def PLAYER_SIZE_def)

text \<open>
  C4 fails on the code. A guest joins when \<open>Math.random()\<close> gives 0.99: the host
  creates it at \<open>(792, 594)\<close>, beyond \<open>arenaWidth - playerSize = 760\<close> and
  \<open>arenaHeight - playerSize = 560\<close>, and since only the local player is ever moved, no
  clamp brings it back.
\<close>

theorem join_outside_arena:
  "positionOf ''guest'' (hostRun (guestJoined 0.99) (freshHost ''ann'' SANTA)) = Some (792, 594)
   \<and> \<not> (792 \<le> CANVAS_WIDTH - PLAYER_SIZE) \<and> \<not> (594 \<le> CANVAS_HEIGHT - PLAYER_SIZE)"
  unfolding hostRun_guestJoined
  by (simp add: positionOf_def CANVAS_WIDTH_def CANVAS_HEIGHT_def PLAYER_SIZE_def)

section \<open>Reversed controls and the speed modifiers\<close>




text \<open>The state holds one event and an event has one type: no state has REVERSE_CONTROLS
  active together with SPEED_BOOST.\<close>

lemma reverse_excludes_boost:
  "\<not> (eventType s = Some REVERSE_CONTROLS \<and> eventType s = Some SPEED_BOOST)"
  by auto




end
